theory Spec2Isabelle
  imports
    Complex_Main
    "HOL-Library.Sublist"
    "HOL-Library.Char_ord"
    "HOL-Library.List_Lexorder"
    "HOL-Library.Product_Lexorder"
    "HOL-Library.Multiset"
begin

section \<open>Python values as the two scripts see them\<close>

text \<open>
  Both \<^verbatim>\<open>viewer/app.py\<close> and \<^verbatim>\<open>compute_run_performance.py\<close> work on
  whatever \<^verbatim>\<open>json.load\<close> hands back: a dict, a list, a str, an int, a float, a bool or
  None. The operations below are the ones the scripts apply to such a value, each with the
  exception Python raises where the operand has the wrong type.
\<close>

datatype py_error =
    TypeError
  | KeyError
  | AttributeError
  | IndexError
  | IOError
  | JSONDecodeError
  | UnicodeDecodeError

datatype pyfloat = Finite int int | Infinity bool | NaN

datatype json =
    JNull
  | JBool bool
  | JInt int
  | JFloat pyfloat
  | JStr string
  | JArr "json list"
  | JObj "(string \<times> json) list"

text \<open>Truth value of an object, as \<^verbatim>\<open>if x:\<close> tests it.\<close>

fun float_truthy :: "pyfloat \<Rightarrow> bool" where
  "float_truthy (Finite m e) = (m \<noteq> 0)"
| "float_truthy (Infinity s) = True"
| "float_truthy NaN = True"

fun py_truthy :: "json \<Rightarrow> bool" where
  "py_truthy JNull = False"
| "py_truthy (JBool b) = b"
| "py_truthy (JInt i) = (i \<noteq> 0)"
| "py_truthy (JFloat f) = float_truthy f"
| "py_truthy (JStr s) = (s \<noteq> [])"
| "py_truthy (JArr xs) = (xs \<noteq> [])"
| "py_truthy (JObj kvs) = (kvs \<noteq> [])"

text \<open>\<^verbatim>\<open>key in s\<close> for two strings: \<^verbatim>\<open>key\<close> occurs in \<^verbatim>\<open>s\<close> as a block.\<close>

fun str_contains :: "string \<Rightarrow> string \<Rightarrow> bool" where
  "str_contains key [] = (key = [])"
| "str_contains key (c # s) = (take (length key) (c # s) = key \<or> str_contains key s)"

text \<open>\<^verbatim>\<open>key in x\<close> for a string key.\<close>

fun py_contains :: "string \<Rightarrow> json \<Rightarrow> py_error + bool" where
  "py_contains key (JObj kvs) = Inr (key \<in> set (map fst kvs))"
| "py_contains key (JArr xs) = Inr (JStr key \<in> set xs)"
| "py_contains key (JStr s) = Inr (str_contains key s)"
| "py_contains key _ = Inl TypeError"

text \<open>\<^verbatim>\<open>x[key]\<close> for a string key.\<close>

fun py_getitem :: "json \<Rightarrow> string \<Rightarrow> py_error + json" where
  "py_getitem (JObj kvs) key = (case map_of kvs key of None \<Rightarrow> Inl KeyError | Some v \<Rightarrow> Inr v)"
| "py_getitem _ key = Inl TypeError"

text \<open>\<^verbatim>\<open>x.get(key, default)\<close>: only a dict has the method.\<close>

fun py_get :: "json \<Rightarrow> string \<Rightarrow> json \<Rightarrow> py_error + json" where
  "py_get (JObj kvs) key dflt = (case map_of kvs key of None \<Rightarrow> Inr dflt | Some v \<Rightarrow> Inr v)"
| "py_get _ key dflt = Inl AttributeError"

text \<open>\<^verbatim>\<open>len(x)\<close>.\<close>

fun py_len :: "json \<Rightarrow> py_error + nat" where
  "py_len (JArr xs) = Inr (length xs)"
| "py_len (JStr s) = Inr (length s)"
| "py_len (JObj kvs) = Inr (length (remdups (map fst kvs)))"
| "py_len _ = Inl TypeError"

text \<open>
  \<^verbatim>\<open>x[i]\<close> for an integer: a sequence counts a negative index from its end; the keys of
  a dict that came out of JSON are strings, so no integer is among them.
\<close>

definition seq_index :: "'a list \<Rightarrow> int \<Rightarrow> py_error + 'a" where
  "seq_index xs i =
     (if i < - int (length xs) \<or> int (length xs) \<le> i then Inl IndexError
      else if i < 0 then Inr (xs ! nat (int (length xs) + i))
      else Inr (xs ! nat i))"

fun py_index :: "json \<Rightarrow> int \<Rightarrow> py_error + json" where
  "py_index (JArr xs) i = seq_index xs i"
| "py_index (JStr s) i = (case seq_index s i of Inl e \<Rightarrow> Inl e | Inr c \<Rightarrow> Inr (JStr [c]))"
| "py_index (JObj kvs) i = Inl KeyError"
| "py_index _ i = Inl TypeError"


section \<open>The log viewer: \<^verbatim>\<open>viewer/app.py\<close>\<close>

text \<open>
  A view function returns a body and a status; \<^verbatim>\<open>jsonify(x)\<close> alone is status 200.
  An exception that leaves the view function is \<open>Inl\<close>.
\<close>

datatype response = Response (status: nat) (body: json)

definition jsonify :: "json \<Rightarrow> response" where
  "jsonify x = Response 200 x"

text \<open>
  \<^verbatim>\<open>get_step(step_id)\<close> over the module-level \<^verbatim>\<open>data\<close>. The chained comparison
  \<^verbatim>\<open>0 <= step_id < len(data["log"])\<close> evaluates its right half only when the left one
  holds, and the branch reads \<^verbatim>\<open>data["log"]\<close> once more.
\<close>

definition get_step :: "json \<Rightarrow> int \<Rightarrow> py_error + response" where
  "get_step data step_id =
     (if 0 \<le> step_id then
        (case py_getitem data ''log'' of
           Inl e \<Rightarrow> Inl e
         | Inr lg \<Rightarrow>
            (case py_len lg of
               Inl e \<Rightarrow> Inl e
             | Inr n \<Rightarrow>
                (if step_id < int n then
                   (case py_index lg step_id of
                      Inl e \<Rightarrow> Inl e
                    | Inr step \<Rightarrow> Inr (jsonify step))
                 else Inr (Response 404 (JObj [(''error'', JStr ''Step not found'')])))))
      else Inr (Response 404 (JObj [(''error'', JStr ''Step not found'')])))"


section \<open>The report generator: \<^verbatim>\<open>compute_run_performance.py\<close>\<close>

subsection \<open>The directory tree it scans\<close>

text \<open>
  What \<^verbatim>\<open>json.loads(f.read())\<close> under \<^verbatim>\<open>with open(path, 'r') as f\<close> comes to for one
  file: the exception that \<^verbatim>\<open>open\<close>, \<^verbatim>\<open>read\<close> or \<^verbatim>\<open>json.loads\<close> raises, or the
  value loaded. \<open>IOError\<close> stands for \<^verbatim>\<open>OSError\<close> and its subclasses (Python 3 has
  \<^verbatim>\<open>IOError\<close> as an alias), \<open>UnicodeDecodeError\<close> is what \<^verbatim>\<open>read\<close> raises in
  text mode on bytes that are not text in the locale's encoding. The tree does not change
  during a scan, so opening the same file twice gives the same outcome.
\<close>

type_synonym load = "py_error + json"

text \<open>
  A directory entry is a directory with its own entries (in the order the operating
  system lists them), a regular file, or a name that is neither, such as a symbolic link
  whose target is gone. Symbolic links to directories are not modelled.
\<close>

datatype node = Dir "(string \<times> node) list" | File load | Dangling

type_synonym entries = "(string \<times> node) list"

fun is_dir :: "node \<Rightarrow> bool" where
  "is_dir (Dir es) = True"
| "is_dir nd = False"

text \<open>\<^verbatim>\<open>os.path.join(a, b)\<close> on POSIX.\<close>

definition path_join :: "string \<Rightarrow> string \<Rightarrow> string" where
  "path_join a b =
     (if take 1 b = ''/'' then b
      else if a = [] \<or> last a = CHR ''/'' then a @ b
      else a @ ''/'' @ b)"

text \<open>
  The two name lists \<^verbatim>\<open>os.walk\<close> yields for a directory: the entries that are
  directories, and all the others.
\<close>

definition walk_dirs :: "entries \<Rightarrow> string list" where
  "walk_dirs es = map fst (filter (\<lambda>(n, c). is_dir c) es)"

definition walk_files :: "entries \<Rightarrow> string list" where
  "walk_files es = map fst (filter (\<lambda>(n, c). \<not> is_dir c) es)"

text \<open>
  \<^verbatim>\<open>os.walk(tp)\<close>, top-down: the directory itself, then each of its subdirectories in
  turn. Every item is the root path paired with the directory's entries, from which the
  \<^verbatim>\<open>dirs\<close> and \<^verbatim>\<open>files\<close> of the triple are \<open>walk_dirs\<close> and \<open>walk_files\<close>. On a
  path that is not a directory \<^verbatim>\<open>os.walk\<close> yields nothing.
\<close>

fun walk :: "string \<Rightarrow> node \<Rightarrow> (string \<times> entries) list" where
  "walk tp (Dir es) =
     (tp, es) # concat (map (\<lambda>(n, c). if is_dir c then walk (path_join tp n) c else []) es)"
| "walk tp nd = []"

text \<open>\<^verbatim>\<open>os.path.isfile(os.path.join(root, f))\<close> for a name of the directory at \<^verbatim>\<open>root\<close>.\<close>

definition isfile :: "entries \<Rightarrow> string \<Rightarrow> bool" where
  "isfile es f = (case map_of es f of Some (File l) \<Rightarrow> True | _ \<Rightarrow> False)"

text \<open>
  Opening and loading \<^verbatim>\<open>os.path.join(root, f)\<close>: a directory, a dangling link and a
  missing name raise an \<^verbatim>\<open>OSError\<close>.
\<close>

definition open_load :: "entries \<Rightarrow> string \<Rightarrow> load" where
  "open_load es f = (case map_of es f of Some (File l) \<Rightarrow> l | _ \<Rightarrow> Inl IOError)"

subsection \<open>\<^verbatim>\<open>extract_agent_type\<close>\<close>

text \<open>
  The function returns the agent type and prints at most one line; the printed lines are
  modelled as the path and the exception of \<^verbatim>\<open>print(f"Error reading {jsonl_path}: {e}")\<close>.
  The \<^verbatim>\<open>except\<close> clause names \<^verbatim>\<open>json.JSONDecodeError\<close> and \<^verbatim>\<open>IOError\<close>; any other
  exception leaves the function.
\<close>

type_synonym log_lines = "(string \<times> py_error) list"

definition extract_agent_type :: "string \<Rightarrow> load \<Rightarrow> py_error + (json \<times> log_lines)" where
  "extract_agent_type jsonl_path opened =
     (case opened of
        Inl e \<Rightarrow>
          (if e = JSONDecodeError \<or> e = IOError
           then Inr (JStr ''Unknown'', [(jsonl_path, e)])
           else Inl e)
      | Inr data \<Rightarrow>
          (case py_contains ''config'' data of
             Inl e \<Rightarrow> Inl e
           | Inr False \<Rightarrow> Inr (JStr ''Unknown'', [])
           | Inr True \<Rightarrow>
              (case py_getitem data ''config'' of
                 Inl e \<Rightarrow> Inl e
               | Inr config \<Rightarrow>
                  (case py_contains ''agent_type'' config of
                     Inl e \<Rightarrow> Inl e
                   | Inr False \<Rightarrow> Inr (JStr ''Unknown'', [])
                   | Inr True \<Rightarrow>
                      (case py_getitem config ''agent_type'' of
                         Inl e \<Rightarrow> Inl e
                       | Inr a \<Rightarrow> Inr (a, []))))))"

subsection \<open>\<^verbatim>\<open>analyze_tasks_in_run\<close>\<close>

record scan_state =
  successful_tasks :: "string list"
  total_valid_tasks :: "string list"
  agent_type :: json
  agent_type_extracted :: bool
  printed :: log_lines

definition initial_state :: scan_state where
  "initial_state =
     \<lparr>successful_tasks = [], total_valid_tasks = [], agent_type = JStr ''Unknown'',
      agent_type_extracted = False, printed = []\<rparr>"

text \<open>
  The first loop: some entry of \<^verbatim>\<open>run_dir\<close> is a directory below which, at any depth,
  a directory lists \<^verbatim>\<open>debug_gym.jsonl\<close> among its files.
\<close>

definition has_tasks :: "string \<Rightarrow> entries \<Rightarrow> bool" where
  "has_tasks run_dir es =
     list_ex (\<lambda>(item, c). is_dir c \<and>
        list_ex (\<lambda>(root_path, files). ''debug_gym.jsonl'' \<in> set (walk_files files))
          (walk (path_join run_dir item) c)) es"

text \<open>\<^verbatim>\<open>len([f for f in files if os.path.isfile(os.path.join(root, f))])\<close>\<close>

definition task_files_count :: "entries \<Rightarrow> nat" where
  "task_files_count es = length (filter (isfile es) (walk_files es))"

text \<open>
  The \<^verbatim>\<open>try\<close> block of the second loop: the path is appended to the total before the
  success field is read, and \<^verbatim>\<open>data.get\<close> raises on a value that is not a dict.
\<close>

definition count_task :: "scan_state \<Rightarrow> string \<Rightarrow> string \<Rightarrow> load \<Rightarrow> py_error + scan_state" where
  "count_task st root_path jsonl_path opened =
     (case opened of
        Inl e \<Rightarrow>
          (if e = JSONDecodeError \<or> e = IOError
           then Inr (st\<lparr>printed := printed st @ [(jsonl_path, e)]\<rparr>)
           else Inl e)
      | Inr data \<Rightarrow>
          (let st2 = st\<lparr>total_valid_tasks := total_valid_tasks st @ [root_path]\<rparr> in
           case py_get data ''success'' (JBool False) of
             Inl e \<Rightarrow> Inl e
           | Inr v \<Rightarrow>
              (if py_truthy v
               then Inr (st2\<lparr>successful_tasks := successful_tasks st2 @ [root_path]\<rparr>)
               else Inr st2)))"

text \<open>One iteration of \<^verbatim>\<open>for root, dirs, files in os.walk(run_dir)\<close>.\<close>

definition visit :: "scan_state \<Rightarrow> string \<times> entries \<Rightarrow> py_error + scan_state" where
  "visit st item =
     (let root_path = fst item; es = snd item in
      if ''debug_gym.jsonl'' \<notin> set (walk_files es) then Inr st
      else if task_files_count es < 3 then Inr st
      else
        (let jsonl_path = path_join root_path ''debug_gym.jsonl'';
             opened = open_load es ''debug_gym.jsonl'' in
         if agent_type_extracted st then count_task st root_path jsonl_path opened
         else
           (case extract_agent_type jsonl_path opened of
              Inl e \<Rightarrow> Inl e
            | Inr (a, out) \<Rightarrow>
                count_task
                  (st\<lparr>agent_type := a, agent_type_extracted := True,
                      printed := printed st @ out\<rparr>)
                  root_path jsonl_path opened)))"

fun scan :: "scan_state \<Rightarrow> (string \<times> entries) list \<Rightarrow> py_error + scan_state" where
  "scan st [] = Inr st"
| "scan st (item # items) =
     (case visit st item of Inl e \<Rightarrow> Inl e | Inr st' \<Rightarrow> scan st' items)"

text \<open>
  \<^verbatim>\<open>analyze_tasks_in_run(run_dir)\<close>, given what is at \<^verbatim>\<open>run_dir\<close>. The triple the
  function returns is the first three fields of the final state. \<^verbatim>\<open>os.listdir\<close> raises
  on a path that is not a directory.
\<close>

definition analyze_tasks_in_run :: "string \<Rightarrow> node \<Rightarrow> py_error + scan_state" where
  "analyze_tasks_in_run run_dir nd =
     (case nd of
        Dir es \<Rightarrow>
          (if \<not> has_tasks run_dir es then Inr initial_state
           else scan initial_state (walk run_dir nd))
      | _ \<Rightarrow> Inl IOError)"

text \<open>
  The rate \<^verbatim>\<open>(successful / total) * 100 if total > 0 else 0\<close> of
  \<^verbatim>\<open>format_terminal_output\<close>, in exact arithmetic. Python computes it in binary floating
  point; division and multiplication round monotonically and 0, 1 and 100 are floats, so
  a bound by 0 or 100 that holds of the exact value holds of the float as well.
\<close>

definition success_rate :: "nat \<Rightarrow> nat \<Rightarrow> rat" where
  "success_rate n_successful n_total =
     (if n_total > 0 then (of_nat n_successful / of_nat n_total) * 100 else 0)"


text \<open>
  The overall rate of \<^verbatim>\<open>format_terminal_output\<close>: the same expression over the sums
  \<^verbatim>\<open>total_success\<close> and \<^verbatim>\<open>total_tasks\<close> of the counts \<^verbatim>\<open>len(successful)\<close> and
  \<^verbatim>\<open>len(total)\<close> that \<^verbatim>\<open>compute_all_runs_performance\<close> keeps of every analysed run.
\<close>

definition overall_rate :: "scan_state list \<Rightarrow> rat" where
  "overall_rate results =
     success_rate (sum_list (map (\<lambda>st. length (successful_tasks st)) results))
                  (sum_list (map (\<lambda>st. length (total_valid_tasks st)) results))"

text \<open>
  A record the scan gets through without an exception: one whose loading raises one of
  the two exceptions the handlers name, or one that loads as an object whose
  \<^verbatim>\<open>"config"\<close>, when present, is an object.
\<close>

definition well_formed_record :: "load \<Rightarrow> bool" where
  "well_formed_record l =
     (case l of
        Inl e \<Rightarrow> e = IOError \<or> e = JSONDecodeError
      | Inr (JObj kvs) \<Rightarrow> (case map_of kvs ''config'' of None \<Rightarrow> True | Some (JObj c) \<Rightarrow> True | Some v \<Rightarrow> False)
      | Inr v \<Rightarrow> False)"

subsection \<open>What the scan is expected to count\<close>

text \<open>
  A directory \<^emph>\<open>counts as a task\<close> when it lists \<^verbatim>\<open>debug_gym.jsonl\<close> among its files,
  holds at least three regular files, and its \<^verbatim>\<open>debug_gym.jsonl\<close> is opened, read and
  parsed without an exception. A task \<^emph>\<open>succeeded\<close> when the \<^verbatim>\<open>success\<close> entry of its
  record is a true value. These two predicates are written from the description of the
  report, to be compared with what the loop computes.
\<close>

definition valid_task :: "entries \<Rightarrow> bool" where
  "valid_task es \<longleftrightarrow>
     ''debug_gym.jsonl'' \<in> set (walk_files es) \<and> 3 \<le> task_files_count es \<and>
     (case open_load es ''debug_gym.jsonl'' of Inl e \<Rightarrow> False | Inr data \<Rightarrow> True)"

definition task_success :: "entries \<Rightarrow> bool" where
  "task_success es =
     (case open_load es ''debug_gym.jsonl'' of
        Inl e \<Rightarrow> False
      | Inr data \<Rightarrow>
         (case py_get data ''success'' (JBool False) of Inl e \<Rightarrow> False | Inr v \<Rightarrow> py_truthy v))"

subsection \<open>Example run directories\<close>

text \<open>
  \<open>run_r1\<close>: a finished task that succeeded, one that failed, one with only two files,
  one whose record is cut short and does not parse, and a stray file. \<open>run_r2\<close>: a single
  task with three files whose record does not parse. \<open>run_r3\<close>: a single task with
  three files whose record holds bytes that are not text.
\<close>

definition run_r1 :: entries where
  "run_r1 =
    [(''task1'', Dir [(''debug_gym.jsonl'',
                        File (Inr (JObj [(''success'', JBool True),
                                         (''config'', JObj [(''agent_type'', JStr ''debug_agent'')])]))),
                     (''debug_gym.log'', File (Inl JSONDecodeError)),
                     (''debug_gym.patch'', File (Inl JSONDecodeError))]),
     (''task2'', Dir [(''debug_gym.jsonl'', File (Inr (JObj [(''success'', JBool False)]))),
                     (''debug_gym.log'', File (Inl JSONDecodeError)),
                     (''debug_gym.patch'', File (Inl JSONDecodeError))]),
     (''task3'', Dir [(''debug_gym.jsonl'', File (Inr (JObj [(''success'', JBool True)]))),
                     (''debug_gym.log'', File (Inl JSONDecodeError))]),
     (''task4'', Dir [(''debug_gym.jsonl'', File (Inl JSONDecodeError)),
                     (''debug_gym.log'', File (Inl JSONDecodeError)),
                     (''debug_gym.patch'', File (Inl JSONDecodeError))]),
     (''notes.txt'', File (Inl JSONDecodeError))]"

definition run_r2 :: entries where
  "run_r2 =
    [(''task1'', Dir [(''debug_gym.jsonl'', File (Inl JSONDecodeError)),
                     (''debug_gym.log'', File (Inl JSONDecodeError)),
                     (''debug_gym.patch'', File (Inl JSONDecodeError))])]"

definition run_r3 :: entries where
  "run_r3 =
    [(''task1'', Dir [(''debug_gym.jsonl'', File (Inl UnicodeDecodeError)),
                     (''debug_gym.log'', File (Inl JSONDecodeError)),
                     (''debug_gym.patch'', File (Inl JSONDecodeError))])]"


section \<open>The environment core, from its specification\<close>

text \<open>
  \<^verbatim>\<open>debug_gym/gym/envs/env.py\<close>, which defines \<^verbatim>\<open>TooledEnv\<close> and \<^verbatim>\<open>RepoEnv\<close>, is not
  among the sources; \<^verbatim>\<open>tests/gym/envs/test_env.py\<close> imports it. The two parts below are
  written from the specification and agree with the assertions of the tests that
  exercise them.
\<close>

subsection \<open>Tool registry\<close>

text \<open>
  Modelled from the spec: the value of one entry of a tool's argument schema,
  \<^verbatim>\<open>{type, description}\<close> (section 3, Tool); the class is not in the sources.
\<close>

record arg_spec =
  arg_type :: "string list"
  arg_description :: string

text \<open>
  Modelled from the spec: a Tool as the registry sees it, identified by its unique name,
  with a description and an argument schema (section 3); \<^verbatim>\<open>debug_gym/gym/tools\<close> is not
  in the sources.
\<close>

record Tool =
  tool_name :: string
  tool_description :: string
  tool_arguments :: "(string \<times> arg_spec) list"

text \<open>
  Modelled from the spec: the incoming action record \<^verbatim>\<open>{id, name, arguments}\<close>, its
  arguments a mapping whose insertion order is irrelevant (section 3, ToolCall);
  \<^verbatim>\<open>debug_gym/gym/tools/tool.py\<close> is not in the sources.
\<close>

record ToolCall =
  call_id :: string
  call_name :: string
  call_arguments :: "string \<rightharpoonup> json"

text \<open>
  Modelled from the spec: the errors of section 4.2 that are raised (duplicate name on
  \<^verbatim>\<open>add_tool\<close>, not found on \<^verbatim>\<open>remove_tool\<close>, key not found on \<^verbatim>\<open>get_tool\<close>), as
  opposed to the soft failure of \<^verbatim>\<open>get_triggered_tools\<close>; \<^verbatim>\<open>TooledEnv\<close> is not in the
  sources.
\<close>

datatype registry_error = DuplicateTool | ToolNotFound | UnknownTool

text \<open>The registered tools, in registration order, at most one per name.\<close>

type_synonym registry = "Tool list"

text \<open>
  Modelled from the spec: \<^verbatim>\<open>TooledEnv.has_tool\<close>, the presence check that never fails
  (section 4.2); \<^verbatim>\<open>TooledEnv\<close> is not in the sources.
\<close>

definition has_tool :: "registry \<Rightarrow> string \<Rightarrow> bool" where
  "has_tool tools n = (n \<in> set (map tool_name tools))"

text \<open>
  Modelled from the spec: \<^verbatim>\<open>TooledEnv.get_tool\<close>, the lookup that fails with a
  key-not-found error on an unknown name (section 4.2); \<^verbatim>\<open>TooledEnv\<close> is not in the
  sources.
\<close>

definition get_tool :: "registry \<Rightarrow> string \<Rightarrow> registry_error + Tool" where
  "get_tool tools n =
     (case find (\<lambda>t. tool_name t = n) tools of None \<Rightarrow> Inl UnknownTool | Some t \<Rightarrow> Inr t)"

text \<open>
  Modelled from the spec: \<^verbatim>\<open>TooledEnv.add_tool\<close>, which fails on a name already
  registered and otherwise stores the tool after the others (section 4.2);
  \<^verbatim>\<open>TooledEnv\<close> is not in the sources.
\<close>

definition add_tool :: "registry \<Rightarrow> Tool \<Rightarrow> registry_error + registry" where
  "add_tool tools t =
     (if has_tool tools (tool_name t) then Inl DuplicateTool else Inr (tools @ [t]))"

text \<open>
  Modelled from the spec: \<^verbatim>\<open>TooledEnv.remove_tool\<close>, which returns the removed tool and
  fails when the name is absent (section 4.2); \<^verbatim>\<open>TooledEnv\<close> is not in the sources.
\<close>

definition remove_tool :: "registry \<Rightarrow> string \<Rightarrow> registry_error + (Tool \<times> registry)" where
  "remove_tool tools n =
     (case find (\<lambda>t. tool_name t = n) tools of
        None \<Rightarrow> Inl ToolNotFound
      | Some t \<Rightarrow> Inr (t, filter (\<lambda>t. tool_name t \<noteq> n) tools))"

text \<open>
  Modelled from the spec: joining strings with a separator, as the comma-separated
  \<^verbatim>\<open>tool_names\<close> and the line-by-line \<^verbatim>\<open>current_breakpoints\<close> need it; \<^verbatim>\<open>env.py\<close> is
  not in the sources.
\<close>

fun join_with :: "string \<Rightarrow> string list \<Rightarrow> string" where
  "join_with sep [] = []"
| "join_with sep [x] = x"
| "join_with sep (x # y # ys) = x @ sep @ join_with sep (y # ys)"

text \<open>
  Modelled from the spec: \<^verbatim>\<open>TooledEnv.tool_names\<close>, the comma-separated listing in
  registration order (section 4.2); \<^verbatim>\<open>TooledEnv\<close> is not in the sources.
\<close>

definition tool_names :: "registry \<Rightarrow> string" where
  "tool_names tools = join_with '', '' (map tool_name tools)"

text \<open>
  Modelled from the spec: \<^verbatim>\<open>TooledEnv.get_triggered_tools\<close> (section 4.2). It resolves
  the call's name against the registry; an unregistered name gives the message
  \<^verbatim>\<open>"Unregistered tool: <name>"\<close> and no tool, a registered one gives no message and the
  tool with the call's arguments. The first component of the result is the message, the
  second the pair \<^verbatim>\<open>[tool, arguments]\<close>; \<open>Inl\<close> is an error raised by the lookup.
  \<^verbatim>\<open>TooledEnv\<close> is not in the sources.
\<close>

definition get_triggered_tools ::
  "registry \<Rightarrow> ToolCall \<Rightarrow> registry_error + (string option \<times> (Tool \<times> (string \<rightharpoonup> json)) option)" where
  "get_triggered_tools tools c =
     (if \<not> has_tool tools (call_name c)
      then Inr (Some (''Unregistered tool: '' @ call_name c), None)
      else
        (case get_tool tools (call_name c) of
           Inl e \<Rightarrow> Inl e
         | Inr t \<Rightarrow> Inr (None, Some (t, call_arguments c))))"

text \<open>The two tools of \<^verbatim>\<open>test_env_tools\<close> and \<^verbatim>\<open>test_get_triggered_tools\<close>.\<close>

definition tool1 :: Tool where
  "tool1 = \<lparr>tool_name = ''tool1'', tool_description = ''instructions1'',
            tool_arguments =
              [(''command 1'',
                \<lparr>arg_type = [''string''], arg_description = ''command 1 description''\<rparr>)]\<rparr>"

definition tool2 :: Tool where
  "tool2 = \<lparr>tool_name = ''tool2'', tool_description = ''instructions2'',
            tool_arguments =
              [(''command 2'',
                \<lparr>arg_type = [''string''], arg_description = ''command 2 description''\<rparr>)]\<rparr>"

subsection \<open>Rendering the breakpoints\<close>

text \<open>
  Modelled from the spec: the BreakpointsState of section 3, a mapping from a file path
  and a line number to the breakpoint command, kept as the list of its items with
  distinct keys; \<^verbatim>\<open>RepoEnv\<close> is not in the sources.
\<close>

type_synonym breakpoints_state = "((string \<times> nat) \<times> string) list"

text \<open>
  Modelled from the spec: the decimal digit of a number below ten, for the \<^verbatim>\<open><N>\<close> of
  \<^verbatim>\<open>line <N> in <file>\<close>; \<^verbatim>\<open>RepoEnv.current_breakpoints\<close> is not in the sources.
\<close>

definition digit_char :: "nat \<Rightarrow> char" where
  "digit_char d = ''0123456789'' ! d"

text \<open>
  Modelled from the spec: the decimal numeral of a line number, the \<^verbatim>\<open><N>\<close> of
  \<^verbatim>\<open>line <N> in <file>\<close>; \<^verbatim>\<open>RepoEnv.current_breakpoints\<close> is not in the sources.
\<close>

fun str_nat :: "nat \<Rightarrow> string" where
  "str_nat n = (if n < 10 then [digit_char n] else str_nat (n div 10) @ [digit_char (n mod 10)])"

declare str_nat.simps [simp del]

text \<open>
  Modelled from the spec: one rendered line, \<^verbatim>\<open>line <N> in <file>\<close> (section 4.4);
  \<^verbatim>\<open>RepoEnv.current_breakpoints\<close> is not in the sources.
\<close>

definition breakpoint_line :: "string \<times> nat \<Rightarrow> string" where
  "breakpoint_line k = ''line '' @ str_nat (snd k) @ '' in '' @ fst k"

text \<open>
  Modelled from the spec: the lines of all breakpoints, ordered by file and then by
  ascending line number (section 4.4). Files compare as Python strings do, character by
  character; \<^verbatim>\<open>RepoEnv.current_breakpoints\<close> is not in the sources.
\<close>

definition breakpoint_lines :: "breakpoints_state \<Rightarrow> string list" where
  "breakpoint_lines bps = map breakpoint_line (sort (map fst bps))"

text \<open>
  Modelled from the spec: \<^verbatim>\<open>RepoEnv.current_breakpoints\<close> (section 4.4): the fixed
  sentinel when the map is empty (its text is the one \<^verbatim>\<open>test_env.py\<close> asserts),
  otherwise one line per breakpoint; \<^verbatim>\<open>RepoEnv\<close> is not in the sources.
\<close>

definition current_breakpoints :: "breakpoints_state \<Rightarrow> string" where
  "current_breakpoints bps =
     (if bps = [] then ''No breakpoints are set.''
      else join_with ''\<newline>'' (breakpoint_lines bps))"

text \<open>
  The order the claim names, written out: by file, and within one file by ascending
  line number.
\<close>

definition file_then_line :: "string \<times> nat \<Rightarrow> string \<times> nat \<Rightarrow> bool" where
  "file_then_line a b \<longleftrightarrow> fst a < fst b \<or> (fst a = fst b \<and> snd a \<le> snd b)"


section \<open>Properties of the viewer\<close>

lemma seq_index_in_range:
  "0 \<le> i \<Longrightarrow> i < int (length xs) \<Longrightarrow> seq_index xs i = Inr (xs ! nat i)"
  by (simp add: seq_index_def)

text \<open>
  C7. Let the loaded run log be an object whose \<^verbatim>\<open>"log"\<close> is an array. Then for every
  integer \<open>step_id\<close> the endpoint answers with status 200 and the record
  \<open>log[step_id]\<close> exactly when \<open>0 \<le> step_id < len(log)\<close>, and with status 404 and the
  body \<^verbatim>\<open>{"error": "Step not found"}\<close> for every other integer; it never leaves the
  function by an exception.
\<close>

theorem get_step_contract:
  assumes "py_getitem data ''log'' = Inr (JArr lg)"
  shows "(0 \<le> step_id \<and> step_id < int (length lg) \<longrightarrow>
            get_step data step_id = Inr (Response 200 (lg ! nat step_id)))
       \<and> (\<not> (0 \<le> step_id \<and> step_id < int (length lg)) \<longrightarrow>
            get_step data step_id = Inr (Response 404 (JObj [(''error'', JStr ''Step not found'')])))
       \<and> ((\<exists>step. get_step data step_id = Inr (Response 200 step))
            \<longleftrightarrow> (0 \<le> step_id \<and> step_id < int (length lg)))
       \<and> (\<exists>r. get_step data step_id = Inr r)"
proof (cases "0 \<le> step_id \<and> step_id < int (length lg)")
  case True
  then have "get_step data step_id = Inr (Response 200 (lg ! nat step_id))"
    using assms by (simp add: get_step_def jsonify_def seq_index_in_range)
  with True show ?thesis by simp
next
  case False
  then have "get_step data step_id = Inr (Response 404 (JObj [(''error'', JStr ''Step not found'')]))"
    using assms by (auto simp: get_step_def)
  with False show ?thesis by simp
qed

theorem get_step_contract_witness:
  "get_step (JObj [(''uuid'', JStr ''u1''), (''log'', JArr [JStr ''s0'', JStr ''s1''])]) 1
     = Inr (Response 200 (JStr ''s1''))
   \<and> get_step (JObj [(''uuid'', JStr ''u1''), (''log'', JArr [JStr ''s0'', JStr ''s1''])]) 2
     = Inr (Response 404 (JObj [(''error'', JStr ''Step not found'')]))
   \<and> get_step (JObj [(''uuid'', JStr ''u1''), (''log'', JArr [JStr ''s0'', JStr ''s1''])]) (- 1)
     = Inr (Response 404 (JObj [(''error'', JStr ''Step not found'')]))"
proof -
  let ?data = "JObj [(''uuid'', JStr ''u1''), (''log'', JArr [JStr ''s0'', JStr ''s1''])]"
  have h: "py_getitem ?data ''log'' = Inr (JArr [JStr ''s0'', JStr ''s1''])"
    by simp
  show ?thesis
    using get_step_contract [OF h, of 1] get_step_contract [OF h, of 2]
      get_step_contract [OF h, of "- 1"]
    by simp
qed


section \<open>Properties of the report generator\<close>

subsection \<open>What one iteration and the whole loop append\<close>

lemma count_task_lists:
  assumes "count_task st r p opened = Inr st'"
  shows "total_valid_tasks st' = total_valid_tasks st @ (case opened of Inl e \<Rightarrow> [] | Inr d \<Rightarrow> [r])"
    and "successful_tasks st' = successful_tasks st @
           (case opened of Inl e \<Rightarrow> []
            | Inr d \<Rightarrow> (case py_get d ''success'' (JBool False) of Inl e \<Rightarrow> [] | Inr v \<Rightarrow> if py_truthy v then [r] else []))"
    and "agent_type_extracted st' = agent_type_extracted st"
  using assms
  by (auto simp: count_task_def Let_def split: sum.splits if_splits)

lemma visit_Inr_cases:
  assumes "visit st (r, es) = Inr st'"
  obtains
    (skipped) "\<not> (''debug_gym.jsonl'' \<in> set (walk_files es) \<and> 3 \<le> task_files_count es)"
      and "st' = st"
  | (opened) st1 where "''debug_gym.jsonl'' \<in> set (walk_files es)" and "3 \<le> task_files_count es"
      and "count_task st1 r (path_join r ''debug_gym.jsonl'') (open_load es ''debug_gym.jsonl'') = Inr st'"
      and "total_valid_tasks st1 = total_valid_tasks st"
      and "successful_tasks st1 = successful_tasks st"
proof (cases "''debug_gym.jsonl'' \<in> set (walk_files es) \<and> 3 \<le> task_files_count es")
  case False
  with assms have "st' = st"
    by (auto simp: visit_def Let_def split: if_splits)
  with False show ?thesis by (rule skipped)
next
  case True
  show ?thesis
  proof (cases "agent_type_extracted st")
    case ex: True
    with True assms
    have "count_task st r (path_join r ''debug_gym.jsonl'') (open_load es ''debug_gym.jsonl'') = Inr st'"
      by (simp add: visit_def Let_def)
    with True show ?thesis by (intro opened [of st]) simp_all
  next
    case nex: False
    with True assms obtain a out where
      "count_task (st\<lparr>agent_type := a, agent_type_extracted := True, printed := printed st @ out\<rparr>)
         r (path_join r ''debug_gym.jsonl'') (open_load es ''debug_gym.jsonl'') = Inr st'"
      by (auto simp: visit_def Let_def split: sum.splits prod.splits)
    with True show ?thesis
      by (intro opened [of "st\<lparr>agent_type := a, agent_type_extracted := True, printed := printed st @ out\<rparr>"]) simp_all
  qed
qed

lemma visit_lists:
  assumes "visit st (r, es) = Inr st'"
  shows "total_valid_tasks st' = total_valid_tasks st @ (if valid_task es then [r] else [])
       \<and> successful_tasks st' =
           successful_tasks st @ (if valid_task es \<and> task_success es then [r] else [])"
  using assms
proof (cases rule: visit_Inr_cases)
  case skipped
  then show ?thesis by (auto simp: valid_task_def)
next
  case (opened st1)
  from count_task_lists(1,2) [OF opened(3)] opened(1,2,4,5)
  show ?thesis
    by (auto simp: valid_task_def task_success_def split: sum.splits)
qed

lemma scan_lists:
  "scan st items = Inr st' \<Longrightarrow>
     total_valid_tasks st' = total_valid_tasks st @ map fst (filter (\<lambda>item. valid_task (snd item)) items)
   \<and> successful_tasks st' = successful_tasks st @ map fst (filter (\<lambda>item. valid_task (snd item) \<and> task_success (snd item)) items)"
proof (induction items arbitrary: st)
  case Nil
  then show ?case by simp
next
  case (Cons item items)
  obtain r es where item: "item = (r, es)" by (cases item)
  from Cons.prems obtain st1 where v: "visit st (r, es) = Inr st1" and s: "scan st1 items = Inr st'"
    by (auto simp: item split: sum.splits)
  from Cons.IH [OF s] visit_lists [OF v] show ?case
    by (simp add: item)
qed


lemma run_r1_analysis:
  "analyze_tasks_in_run ''out/m/r1'' (Dir run_r1) =
     Inr \<lparr>successful_tasks = [''out/m/r1/task1''],
          total_valid_tasks = [''out/m/r1/task1'', ''out/m/r1/task2''],
          agent_type = JStr ''debug_agent'', agent_type_extracted = True,
          printed = [(''out/m/r1/task4/debug_gym.jsonl'', JSONDecodeError)]\<rparr>"
  by code_simp

lemma run_r1_has_tasks: "has_tasks ''out/m/r1'' run_r1"
  by code_simp

text \<open>
  C8 as stated fails: a directory with \<^verbatim>\<open>debug_gym.jsonl\<close> and three files present is
  not counted when the record does not parse.
\<close>

theorem three_files_not_counted:
  "walk ''out/m/r2'' (Dir run_r2) =
     [(''out/m/r2'', run_r2),
      (''out/m/r2/task1'',
       [(''debug_gym.jsonl'', File (Inl JSONDecodeError)),
        (''debug_gym.log'', File (Inl JSONDecodeError)),
        (''debug_gym.patch'', File (Inl JSONDecodeError))])]
   \<and> ''debug_gym.jsonl'' \<in> set (walk_files
        [(''debug_gym.jsonl'', File (Inl JSONDecodeError)),
         (''debug_gym.log'', File (Inl JSONDecodeError)),
         (''debug_gym.patch'', File (Inl JSONDecodeError))])
   \<and> task_files_count
        [(''debug_gym.jsonl'', File (Inl JSONDecodeError)),
         (''debug_gym.log'', File (Inl JSONDecodeError)),
         (''debug_gym.patch'', File (Inl JSONDecodeError))] = 3
   \<and> analyze_tasks_in_run ''out/m/r2'' (Dir run_r2) =
       Inr \<lparr>successful_tasks = [], total_valid_tasks = [], agent_type = JStr ''Unknown'',
            agent_type_extracted = True,
            printed = [(''out/m/r2/task1/debug_gym.jsonl'', JSONDecodeError),
                       (''out/m/r2/task1/debug_gym.jsonl'', JSONDecodeError)]\<rparr>"
  by code_simp

text \<open>
  C8, amended. Whenever the scan of a run directory that has tasks returns, the paths
  counted toward the total are exactly, and in walk order, the directories that list
  \<^verbatim>\<open>debug_gym.jsonl\<close>, hold at least three regular files and whose record is read and
  parsed without error; the paths counted as successful are those among them whose
  record's \<^verbatim>\<open>success\<close> value is true. A directory that lists \<^verbatim>\<open>debug_gym.jsonl\<close> and
  holds fewer than three regular files is skipped entirely: the iteration leaves the
  state as it was.
\<close>

theorem analyze_counts_valid_tasks:
  assumes "analyze_tasks_in_run run_dir (Dir es) = Inr st" and "has_tasks run_dir es"
  shows "total_valid_tasks st = map fst (filter (\<lambda>item. valid_task (snd item)) (walk run_dir (Dir es)))
       \<and> successful_tasks st =
           map fst (filter (\<lambda>item. valid_task (snd item) \<and> task_success (snd item)) (walk run_dir (Dir es)))
       \<and> (\<forall>s r d. ''debug_gym.jsonl'' \<in> set (walk_files d) \<and> task_files_count d < 3
             \<longrightarrow> visit s (r, d) = Inr s)"
proof -
  from assms have "scan initial_state (walk run_dir (Dir es)) = Inr st"
    by (simp add: analyze_tasks_in_run_def)
  from scan_lists [OF this] have
    "total_valid_tasks st = map fst (filter (\<lambda>item. valid_task (snd item)) (walk run_dir (Dir es)))
     \<and> successful_tasks st =
         map fst (filter (\<lambda>item. valid_task (snd item) \<and> task_success (snd item)) (walk run_dir (Dir es)))"
    by (simp add: initial_state_def)
  moreover have "\<forall>s r d. ''debug_gym.jsonl'' \<in> set (walk_files d) \<and> task_files_count d < 3
             \<longrightarrow> visit s (r, d) = Inr s"
    by (simp add: visit_def)
  ultimately show ?thesis by blast
qed

theorem analyze_counts_valid_tasks_witness:
  "has_tasks ''out/m/r1'' run_r1
   \<and> map fst (filter (\<lambda>item. valid_task (snd item)) (walk ''out/m/r1'' (Dir run_r1)))
       = [''out/m/r1/task1'', ''out/m/r1/task2'']
   \<and> map fst (filter (\<lambda>item. valid_task (snd item) \<and> task_success (snd item)) (walk ''out/m/r1'' (Dir run_r1)))
       = [''out/m/r1/task1'']
   \<and> visit initial_state
        (''out/m/r1/task3'',
         [(''debug_gym.jsonl'', File (Inr (JObj [(''success'', JBool True)]))),
          (''debug_gym.log'', File (Inl JSONDecodeError))])
       = Inr initial_state"
proof -
  have c: "''debug_gym.jsonl'' \<in> set (walk_files
             [(''debug_gym.jsonl'', File (Inr (JObj [(''success'', JBool True)]))),
              (''debug_gym.log'', File (Inl JSONDecodeError))])
         \<and> task_files_count
             [(''debug_gym.jsonl'', File (Inr (JObj [(''success'', JBool True)]))),
              (''debug_gym.log'', File (Inl JSONDecodeError))] < 3"
    by code_simp
  show ?thesis
    using analyze_counts_valid_tasks [OF run_r1_analysis run_r1_has_tasks] c run_r1_has_tasks
    by simp
qed


subsection \<open>Successful tasks are among the counted ones\<close>

lemma subseq_filtered:
  "subseq (map f (filter (\<lambda>x. P x \<and> Q x) xs)) (map f (filter P xs))"
proof -
  have "subseq (filter Q (filter P xs)) (filter P xs)"
    by (rule subseq_filter_left)
  then have "subseq (map f (filter Q (filter P xs))) (map f (filter P xs))"
    by (rule subseq_map)
  then show ?thesis
    by (simp add: conj_commute)
qed

lemma success_rate_bounds:
  "s \<le> t \<Longrightarrow> 0 \<le> success_rate s t \<and> success_rate s t \<le> 100"
  by (simp add: success_rate_def divide_le_eq)

lemma scan_successful_subseq:
  assumes "scan initial_state items = Inr st"
  shows "subseq (successful_tasks st) (total_valid_tasks st)"
proof -
  from scan_lists [OF assms] have
    "total_valid_tasks st = map fst (filter (\<lambda>item. valid_task (snd item)) items)"
    "successful_tasks st = map fst (filter (\<lambda>item. valid_task (snd item) \<and> task_success (snd item)) items)"
    by (simp_all add: initial_state_def)
  then show ?thesis
    by (simp add: subseq_filtered)
qed

lemma analyze_successful_subseq:
  assumes "analyze_tasks_in_run run_dir nd = Inr st"
  shows "subseq (successful_tasks st) (total_valid_tasks st)"
proof (cases nd)
  case (Dir es)
  show ?thesis
  proof (cases "has_tasks run_dir es")
    case True
    with assms Dir have "scan initial_state (walk run_dir nd) = Inr st"
      by (simp add: analyze_tasks_in_run_def)
    then show ?thesis by (rule scan_successful_subseq)
  next
    case False
    with assms Dir have "st = initial_state"
      by (simp add: analyze_tasks_in_run_def)
    then show ?thesis by (simp add: initial_state_def)
  qed
next
  case (File l)
  with assms show ?thesis by (simp add: analyze_tasks_in_run_def)
next
  case Dangling
  with assms show ?thesis by (simp add: analyze_tasks_in_run_def)
qed

lemma analyze_successful_length:
  "analyze_tasks_in_run run_dir nd = Inr st \<Longrightarrow>
     length (successful_tasks st) \<le> length (total_valid_tasks st)"
  by (rule list_emb_length, rule analyze_successful_subseq)

text \<open>
  C10. Whenever \<^verbatim>\<open>analyze_tasks_in_run\<close> returns, \<open>successful_tasks\<close> is a
  subsequence of \<open>total_valid_tasks\<close> (a path enters the former only in an iteration
  that has just put it into the latter), hence a subset of it and no longer than it, and
  the success rate computed from the two lengths lies between 0 and 100.
\<close>

theorem successful_within_total:
  assumes "analyze_tasks_in_run run_dir nd = Inr st"
  shows "subseq (successful_tasks st) (total_valid_tasks st)
       \<and> set (successful_tasks st) \<subseteq> set (total_valid_tasks st)
       \<and> length (successful_tasks st) \<le> length (total_valid_tasks st)
       \<and> 0 \<le> success_rate (length (successful_tasks st)) (length (total_valid_tasks st))
       \<and> success_rate (length (successful_tasks st)) (length (total_valid_tasks st)) \<le> 100"
proof -
  from assms have sub: "subseq (successful_tasks st) (total_valid_tasks st)"
    by (rule analyze_successful_subseq)
  from assms have len: "length (successful_tasks st) \<le> length (total_valid_tasks st)"
    by (rule analyze_successful_length)
  from sub have "set (successful_tasks st) \<subseteq> set (total_valid_tasks st)"
    by (auto elim: list_emb_set)
  with sub len success_rate_bounds [OF len] show ?thesis by simp
qed

theorem successful_within_total_witness:
  "analyze_tasks_in_run ''out/m/r1'' (Dir run_r1) =
     Inr \<lparr>successful_tasks = [''out/m/r1/task1''],
          total_valid_tasks = [''out/m/r1/task1'', ''out/m/r1/task2''],
          agent_type = JStr ''debug_agent'', agent_type_extracted = True,
          printed = [(''out/m/r1/task4/debug_gym.jsonl'', JSONDecodeError)]\<rparr>
   \<and> subseq [''out/m/r1/task1''] [''out/m/r1/task1'', ''out/m/r1/task2'']
   \<and> success_rate (length [''out/m/r1/task1''])
        (length [''out/m/r1/task1'', ''out/m/r1/task2'']) \<le> 100"
  using successful_within_total [OF run_r1_analysis] run_r1_analysis
  by simp

text \<open>The overall rate of a report over any runs that were analysed lies between 0 and 100.\<close>

lemma overall_rate_bounds:
  assumes "\<And>st. st \<in> set results \<Longrightarrow> \<exists>run_dir nd. analyze_tasks_in_run run_dir nd = Inr st"
  shows "0 \<le> overall_rate results \<and> overall_rate results \<le> 100"
proof -
  have "length (successful_tasks st) \<le> length (total_valid_tasks st)" if "st \<in> set results" for st
    using assms [OF that] analyze_successful_length by blast
  then have "sum_list (map (\<lambda>st. length (successful_tasks st)) results)
           \<le> sum_list (map (\<lambda>st. length (total_valid_tasks st)) results)"
    by (rule sum_list_mono)
  then show ?thesis
    unfolding overall_rate_def by (rule success_rate_bounds)
qed

subsection \<open>When the scan returns\<close>

text \<open>
  The scan returns, rather than raising, whenever every \<^verbatim>\<open>debug_gym.jsonl\<close> it may open
  is a record as described by \<open>well_formed_record\<close>.
\<close>

lemma getitem_of_member:
  "k \<in> set (map fst kvs) \<Longrightarrow> \<exists>v. py_getitem (JObj kvs) k = Inr v"
  by (cases "map_of kvs k") (auto simp: map_of_eq_None_iff)

lemma extract_agent_type_returns:
  assumes "well_formed_record l"
  shows "\<exists>a out. extract_agent_type p l = Inr (a, out)"
proof (cases l)
  case (Inl e)
  with assms show ?thesis
    by (auto simp: well_formed_record_def extract_agent_type_def)
next
  case (Inr data)
  with assms obtain kvs where data: "data = JObj kvs"
    by (auto simp: well_formed_record_def split: json.splits)
  show ?thesis
  proof (cases "map_of kvs ''config''")
    case None
    then have "''config'' \<notin> set (map fst kvs)"
      by (simp add: map_of_eq_None_iff)
    then show ?thesis
      by (simp add: Inr data extract_agent_type_def)
  next
    case (Some cfg)
    with assms Inr data obtain c where cfg: "cfg = JObj c"
      by (auto simp: well_formed_record_def split: json.splits)
    from Some have mem: "''config'' \<in> set (map fst kvs)"
      by (metis map_of_eq_None_iff option.distinct(1) set_map)
    show ?thesis
    proof (cases "''agent_type'' \<in> set (map fst c)")
      case True
      then obtain a where "py_getitem (JObj c) ''agent_type'' = Inr a"
        using getitem_of_member by blast
      with True mem Some show ?thesis
        by (simp add: Inr data cfg extract_agent_type_def)
    next
      case False
      with mem Some show ?thesis
        by (simp add: Inr data cfg extract_agent_type_def)
    qed
  qed
qed

lemma count_task_returns:
  "well_formed_record l \<Longrightarrow> \<exists>st'. count_task st r p l = Inr st'"
  by (auto simp: well_formed_record_def count_task_def Let_def
      split: sum.splits json.splits option.splits)

lemma visit_returns:
  "well_formed_record (open_load es ''debug_gym.jsonl'') \<Longrightarrow> \<exists>st'. visit st (r, es) = Inr st'"
  using extract_agent_type_returns [of "open_load es ''debug_gym.jsonl''" "path_join r ''debug_gym.jsonl''"]
    count_task_returns [of "open_load es ''debug_gym.jsonl''"]
  by (auto simp: visit_def Let_def split: sum.splits)

lemma scan_returns:
  "list_all (\<lambda>item. well_formed_record (open_load (snd item) ''debug_gym.jsonl'')) items
     \<Longrightarrow> \<exists>st'. scan st items = Inr st'"
proof (induction items arbitrary: st)
  case Nil
  then show ?case by simp
next
  case (Cons item items)
  obtain r es where item: "item = (r, es)" by (cases item)
  with Cons.prems obtain st1 where "visit st (r, es) = Inr st1"
    using visit_returns [of es st r] by auto
  moreover from Cons.prems Cons.IH [of st1] obtain st' where "scan st1 items = Inr st'"
    by auto
  ultimately show ?case by (simp add: item)
qed


lemma analyze_tasks_in_run_returns:
  assumes "list_all (\<lambda>item. well_formed_record (open_load (snd item) ''debug_gym.jsonl''))
             (walk run_dir (Dir es))"
  shows "\<exists>st. analyze_tasks_in_run run_dir (Dir es) = Inr st"
proof (cases "has_tasks run_dir es")
  case True
  with scan_returns [OF assms, of initial_state] show ?thesis
    by (simp add: analyze_tasks_in_run_def)
next
  case False
  then show ?thesis by (simp add: analyze_tasks_in_run_def)
qed

subsection \<open>A record that cannot be decoded\<close>

text \<open>
  A record whose reading raises \<^verbatim>\<open>IOError\<close>, or whose text \<^verbatim>\<open>json.loads\<close> rejects, is
  reported and passed over: the agent type is \<^verbatim>\<open>"Unknown"\<close>, one line is printed, the
  two lists stay as they were and the loop goes on.
\<close>

lemma extract_agent_type_caught:
  "e = IOError \<or> e = JSONDecodeError \<Longrightarrow>
     extract_agent_type jsonl_path (Inl e) = Inr (JStr ''Unknown'', [(jsonl_path, e)])"
  by (auto simp: extract_agent_type_def)

lemma visit_caught:
  assumes "e = IOError \<or> e = JSONDecodeError"
    and "open_load es ''debug_gym.jsonl'' = Inl e"
  shows "\<exists>st'. visit st (r, es) = Inr st'
           \<and> total_valid_tasks st' = total_valid_tasks st
           \<and> successful_tasks st' = successful_tasks st"
  using assms
  by (auto simp: visit_def Let_def extract_agent_type_def count_task_def)

text \<open>
  C9 at a record whose bytes are not text in the locale's encoding: \<^verbatim>\<open>f.read()\<close> raises
  \<^verbatim>\<open>UnicodeDecodeError\<close>, which is neither of the two exceptions the handlers name, so it
  leaves \<^verbatim>\<open>extract_agent_type\<close> and \<^verbatim>\<open>analyze_tasks_in_run\<close> and no report is made.
\<close>

theorem undecodable_record_aborts_scan:
  "extract_agent_type ''out/m/r3/task1/debug_gym.jsonl'' (Inl UnicodeDecodeError)
     = Inl UnicodeDecodeError
   \<and> analyze_tasks_in_run ''out/m/r3'' (Dir run_r3) = Inl UnicodeDecodeError"
  by code_simp


section \<open>Properties of the tool registry\<close>

lemma find_registered:
  "n \<in> set (map tool_name tools) \<Longrightarrow>
     \<exists>t. find (\<lambda>t. tool_name t = n) tools = Some t \<and> tool_name t = n \<and> t \<in> set tools"
  by (induction tools) auto

lemma has_tool_get_tool:
  "has_tool tools n \<longleftrightarrow> (\<exists>t. get_tool tools n = Inr t)"
  by (auto simp: has_tool_def get_tool_def find_None_iff find_Some_iff split: option.splits)

text \<open>
  C2. For every registry and every ToolCall: when the call's name is not registered,
  \<open>get_triggered_tools\<close> returns the message \<^verbatim>\<open>"Unregistered tool: <name>"\<close> with no
  tool, and raises nothing; when it is registered, it returns no message and the pair of
  the registered tool of that name and exactly the argument mapping the call carries.
\<close>

theorem get_triggered_tools_resolves:
  "(\<not> has_tool tools (call_name c) \<longrightarrow>
       get_triggered_tools tools c = Inr (Some (''Unregistered tool: '' @ call_name c), None))
   \<and> (has_tool tools (call_name c) \<longrightarrow>
       (\<exists>t. t \<in> set tools \<and> tool_name t = call_name c \<and> get_tool tools (call_name c) = Inr t
            \<and> get_triggered_tools tools c = Inr (None, Some (t, call_arguments c))))"
proof (cases "has_tool tools (call_name c)")
  case False
  then show ?thesis by (simp add: get_triggered_tools_def)
next
  case True
  then obtain t where "find (\<lambda>t. tool_name t = call_name c) tools = Some t"
      "tool_name t = call_name c" "t \<in> set tools"
    using find_registered [of "call_name c" tools] by (auto simp: has_tool_def)
  with True show ?thesis
    by (auto simp: get_triggered_tools_def get_tool_def)
qed

text \<open>The registrations and the listing that \<^verbatim>\<open>test_env.py\<close> asserts.\<close>

lemma test_env_tools:
  "add_tool [] tool1 = Inr [tool1] \<and> add_tool [tool1] tool2 = Inr [tool1, tool2]
   \<and> add_tool [tool1] tool1 = Inl DuplicateTool
   \<and> tool_names [tool1, tool2] = ''tool1, tool2''"
  by (simp add: add_tool_def has_tool_def tool1_def tool2_def tool_names_def)

theorem get_triggered_tools_resolves_witness:
  "has_tool [tool1, tool2] ''tool1'' \<and> \<not> has_tool [tool1, tool2] ''tool3''
   \<and> get_triggered_tools [tool1, tool2]
        \<lparr>call_id = ''123'', call_name = ''tool1'',
         call_arguments = [''arg1'' \<mapsto> JStr ''abc'', ''arg2'' \<mapsto> JInt 4]\<rparr>
       = Inr (None, Some (tool1, [''arg1'' \<mapsto> JStr ''abc'', ''arg2'' \<mapsto> JInt 4]))
   \<and> get_triggered_tools [tool1, tool2]
        \<lparr>call_id = ''345'', call_name = ''tool3'', call_arguments = Map.empty\<rparr>
       = Inr (Some ''Unregistered tool: tool3'', None)"
  using get_triggered_tools_resolves [of "[tool1, tool2]"
          "\<lparr>call_id = ''123'', call_name = ''tool1'',
            call_arguments = [''arg1'' \<mapsto> JStr ''abc'', ''arg2'' \<mapsto> JInt 4]\<rparr>"]
        get_triggered_tools_resolves [of "[tool1, tool2]"
          "\<lparr>call_id = ''345'', call_name = ''tool3'', call_arguments = Map.empty\<rparr>"]
  by (auto simp: has_tool_def tool1_def tool2_def)




section \<open>Properties of the breakpoint rendering\<close>

lemma le_file_then_line: "a \<le> b \<Longrightarrow> file_then_line a b"
  for a b :: "string \<times> nat"
  by (auto simp: file_then_line_def less_eq_prod_def)

lemma sorted_file_then_line:
  "sorted ks \<Longrightarrow> sorted_wrt file_then_line ks" for ks :: "(string \<times> nat) list"
  by (induction ks) (auto intro: le_file_then_line)

text \<open>
  C5. On the empty breakpoint map \<open>current_breakpoints\<close> returns the fixed sentinel
  string. On any other map it returns the lines \<^verbatim>\<open>line <N> in <file>\<close> of a
  rearrangement of the map's keys, one line per breakpoint, that is ordered by file and,
  within a file, by ascending line number, joined by newlines.
\<close>

theorem current_breakpoints_render:
  "(bps = [] \<longrightarrow> current_breakpoints bps = ''No breakpoints are set.'')
   \<and> (bps \<noteq> [] \<longrightarrow>
        (\<exists>ks. mset ks = mset (map fst bps) \<and> sorted_wrt file_then_line ks
            \<and> length ks = length bps
            \<and> current_breakpoints bps = join_with ''\<newline>'' (map breakpoint_line ks)))"
proof (cases "bps = []")
  case True
  then show ?thesis by (simp add: current_breakpoints_def)
next
  case False
  let ?ks = "sort (map fst bps)"
  have "mset ?ks = mset (map fst bps)" by simp
  moreover have "sorted_wrt file_then_line ?ks"
    by (rule sorted_file_then_line) simp
  moreover have "length ?ks = length bps" by simp
  moreover have "current_breakpoints bps = join_with ''\<newline>'' (map breakpoint_line ?ks)"
    using False by (simp add: current_breakpoints_def breakpoint_lines_def)
  ultimately show ?thesis using False by blast
qed

text \<open>
  The two renderings that \<^verbatim>\<open>test_current_breakpoints_no_breakpoints\<close> and
  \<^verbatim>\<open>test_current_breakpoints_with_breakpoints\<close> assert, and one on a map whose items
  are not in order.
\<close>

lemma test_current_breakpoints:
  "current_breakpoints [] = ''No breakpoints are set.''
   \<and> current_breakpoints
        [((''file1.py'', 10), ''b file1.py:10''), ((''file1.py'', 20), ''b file1.py:20''),
         ((''file1.py'', 30), ''b file1.py:30''), ((''file2.py'', 15), ''b file2.py:15'')]
     = ''line 10 in file1.py\<newline>line 20 in file1.py\<newline>line 30 in file1.py\<newline>line 15 in file2.py''"
  by code_simp

lemma current_breakpoints_reorders:
  "current_breakpoints
     [((''file2.py'', 15), ''b file2.py:15''), ((''file1.py'', 30), ''b file1.py:30''),
      ((''file1.py'', 10), ''b file1.py:10'')]
   = ''line 10 in file1.py\<newline>line 30 in file1.py\<newline>line 15 in file2.py''"
  by code_simp


theorem current_breakpoints_render_witness:
  "current_breakpoints [] = ''No breakpoints are set.''
   \<and> (\<exists>ks. mset ks = mset [(''file2.py'', 15), (''file1.py'', 30), (''file1.py'', 10 :: nat)]
          \<and> sorted_wrt file_then_line ks
          \<and> current_breakpoints
               [((''file2.py'', 15), ''b file2.py:15''), ((''file1.py'', 30), ''b file1.py:30''),
                ((''file1.py'', 10), ''b file1.py:10'')]
             = join_with ''\<newline>'' (map breakpoint_line ks))"
  using current_breakpoints_render [of "[]"]
    current_breakpoints_render
      [of "[((''file2.py'', 15), ''b file2.py:15''), ((''file1.py'', 30), ''b file1.py:30''),
            ((''file1.py'', 10), ''b file1.py:10'')]"]
  by auto

end
